theory Spec2Isabelle
  imports Main "HOL-Library.Multiset"
begin

section \<open>Python strings and lists\<close>

text \<open>
  A Python \<open>str\<close> is modelled as a \<open>string\<close> (a list of 8-bit characters); a character
  outside ASCII is the sequence of its UTF-8 bytes. The only string operations of the
  program that look inside a character are \<open>lower\<close> and the membership tests against
  ASCII extension names, and no character outside ASCII lowercases to one of the ASCII
  letters occurring in those names, so the byte view decides them as Python does.
\<close>

datatype exn = IndexError | OSError | SQLAlchemyError | OverflowError

definition ascii_uppercase :: string where
  "ascii_uppercase = ''ABCDEFGHIJKLMNOPQRSTUVWXYZ''"

definition ascii_lowercase :: string where
  "ascii_lowercase = ''abcdefghijklmnopqrstuvwxyz''"

definition lower_char :: "char \<Rightarrow> char" where
  "lower_char c =
     (case map_of (zip ascii_uppercase ascii_lowercase) c of Some l \<Rightarrow> l | None \<Rightarrow> c)"

text \<open>\<open>s.lower()\<close>\<close>

definition lower :: "string \<Rightarrow> string" where
  "lower s = map lower_char s"

text \<open>\<open>s.rsplit(sep, 1)\<close>: split once, at the last occurrence of \<open>sep\<close>; a string
  without \<open>sep\<close> comes back whole, as a one-element list.\<close>

definition rsplit1 :: "string \<Rightarrow> char \<Rightarrow> string list" where
  "rsplit1 s sep =
     (if sep \<in> set s
      then [rev (drop 1 (dropWhile (\<lambda>c. c \<noteq> sep) (rev s))),
            rev (takeWhile (\<lambda>c. c \<noteq> sep) (rev s))]
      else [s])"

text \<open>\<open>xs[i]\<close> for a non-negative index: IndexError out of range.\<close>

definition index :: "'a list \<Rightarrow> nat \<Rightarrow> exn + 'a" where
  "index xs i = (if i < length xs then Inr (xs ! i) else Inl IndexError)"

text \<open>Truth value of an optional string: \<open>None\<close> and \<open>''\<close> are false.\<close>

definition truthy :: "string option \<Rightarrow> bool" where
  "truthy x = (case x of None \<Rightarrow> False | Some s \<Rightarrow> s \<noteq> [])"

text \<open>\<open>os.path.join(a, b)\<close> on a POSIX system.\<close>

definition os_path_join :: "string \<Rightarrow> string \<Rightarrow> string" where
  "os_path_join a b =
     (if b \<noteq> [] \<and> hd b = CHR ''/'' then b
      else if a = [] \<or> last a = CHR ''/'' then a @ b
      else a @ ''/'' @ b)"

section \<open>Configuration\<close>

definition UPLOAD_FOLDER :: string where
  "UPLOAD_FOLDER = os_path_join ''static'' ''uploads''"

definition ALLOWED_EXTENSIONS :: "string set" where
  "ALLOWED_EXTENSIONS =
     {''png'', ''jpg'', ''jpeg'', ''gif'', ''webp'', ''mp4'', ''mov'', ''avi'', ''webm''}"

section \<open>Helper functions\<close>

text \<open>The conjunction of the source short-circuits: the index is only evaluated when the
  name contains a dot.\<close>

definition allowed_file :: "string \<Rightarrow> exn + bool" where
  "allowed_file filename =
     (if CHR ''.'' \<in> set filename
      then (case index (rsplit1 filename CHR ''.'') 1 of
              Inl ex \<Rightarrow> Inl ex
            | Inr ext \<Rightarrow> Inr (lower ext \<in> ALLOWED_EXTENSIONS))
      else Inr False)"

definition get_file_type :: "string \<Rightarrow> exn + string" where
  "get_file_type filename =
     (case index (rsplit1 filename CHR ''.'') 1 of
        Inl ex \<Rightarrow> Inl ex
      | Inr e \<Rightarrow>
          (let ext = lower e
           in if ext \<in> {''mp4'', ''mov'', ''avi'', ''webm''} then Inr ''video''
              else Inr ''image''))"

section \<open>The sanitiser of the web framework\<close>

text \<open>
  \<open>secure_filename\<close> is imported from the web framework's utilities, so the handler below
  takes it as a parameter of its environment. The following function describes the
  framework's implementation on a POSIX system: normalise the name by compatibility
  decomposition and encode it to ASCII, ignoring what cannot be encoded; turn every \<open>/\<close>
  into a space; split at whitespace and join the words with \<open>_\<close>; delete every character
  outside \<open>[A-Za-z0-9_.-]\<close>; strip \<open>.\<close> and \<open>_\<close> from both ends.

  The first step needs the decomposition tables of Unicode (it turns an accented letter
  into the plain letter, for instance), so it is the parameter \<open>to_ascii\<close> of the function.
  On a name that is ASCII already, that step returns the name unchanged.
\<close>

definition is_space :: "char \<Rightarrow> bool" where
  "is_space c =
     (c \<in> set [CHR 0x09, CHR 0x0A, CHR 0x0B, CHR 0x0C, CHR 0x0D,
               CHR 0x1C, CHR 0x1D, CHR 0x1E, CHR 0x1F, CHR 0x20])"

text \<open>\<open>s.split()\<close>: the maximal runs of non-whitespace characters; the first argument is
  the word being read.\<close>

fun split_from :: "string \<Rightarrow> string \<Rightarrow> string list" where
  "split_from w [] = (if w = [] then [] else [w])"
| "split_from w (c # cs) =
     (if is_space c then (if w = [] then split_from [] cs else w # split_from [] cs)
      else split_from (w @ [c]) cs)"

definition split_whitespace :: "string \<Rightarrow> string list" where
  "split_whitespace s = split_from [] s"

text \<open>\<open>sep.join(ws)\<close>\<close>

fun join :: "string \<Rightarrow> string list \<Rightarrow> string" where
  "join sep [] = []"
| "join sep [w] = w"
| "join sep (w # v # ws) = w @ sep @ join sep (v # ws)"

text \<open>\<open>s.strip(chars)\<close>\<close>

definition strip :: "string \<Rightarrow> string \<Rightarrow> string" where
  "strip s chars =
     rev (dropWhile (\<lambda>c. c \<in> set chars) (rev (dropWhile (\<lambda>c. c \<in> set chars) s)))"

definition digits :: string where
  "digits = ''0123456789''"

definition filename_ascii_chars :: string where
  "filename_ascii_chars = ascii_uppercase @ ascii_lowercase @ digits @ ''_.-''"

definition werkzeug_secure_filename :: "(string \<Rightarrow> string) \<Rightarrow> string \<Rightarrow> string" where
  "werkzeug_secure_filename to_ascii filename =
     (let encoded = to_ascii filename;
          replaced = map (\<lambda>c. if c = CHR ''/'' then CHR '' '' else c) encoded;
          joined = join ''_'' (split_whitespace replaced);
          kept = filter (\<lambda>c. c \<in> set filename_ascii_chars) joined
      in strip kept ''._'')"

section \<open>Data model\<close>

type_synonym datetime = nat

record post =
  id_post :: nat
  title :: string
  topic :: string
  content_markdown :: "string option"
  date_posted :: datetime
  media_type :: "string option"
  media_filename :: "string option"

text \<open>The column default of \<open>topic\<close>: the two-character category label of the source, as
  its six UTF-8 bytes.\<close>

definition default_topic :: string where
  "default_topic = [CHR 0xE7, CHR 0x94, CHR 0x9F, CHR 0xE6, CHR 0xB4, CHR 0xBB]"

text \<open>The persistent state: the rows of the table in insertion order, and the file system
  as a map from paths to contents.\<close>

record state =
  posts :: "post list"
  fs :: "string \<rightharpoonup> string"

record file_storage =
  filename :: string
  stream :: string

record request =
  request_method :: string
  form :: "string \<rightharpoonup> string"
  files :: "string \<rightharpoonup> file_storage"

text \<open>
  What the handler receives from outside during one request: the sanitiser, the
  hexadecimal form of the fresh UUID, the clock, and whether saving the file or committing
  the row raises.
\<close>

record env =
  secure_filename :: "string \<Rightarrow> string"
  uuid4_hex :: string
  utcnow :: datetime
  save_raises :: "exn option"
  commit_raises :: "exn option"

datatype error_message =
    Fill_in_title_and_content_or_file
  | Publish_failed exn

datatype template =
    Index_html "post list"
  | New_post_html "error_message option"
  | Detail_html post string

text \<open>A rendered template is a response with status 200, a redirect one with status 302,
  and \<open>abort n\<close> ends the request with status \<open>n\<close>.\<close>

datatype response =
    Render template
  | Redirect string
  | Abort nat

fun status :: "response \<Rightarrow> nat" where
  "status (Render t) = 200"
| "status (Redirect url) = 302"
| "status (Abort n) = n"

section \<open>Storage\<close>

text \<open>The generated key is one more than the greatest key in the table.\<close>

definition next_id :: "post list \<Rightarrow> nat" where
  "next_id ps = Suc (fold max (map id_post ps) 0)"

text \<open>
  Adding and committing a new row. The key is generated, \<open>date_posted\<close> takes its column
  default (the clock), and a \<open>topic\<close> of \<open>None\<close> takes its column default; the other
  columns hold what the constructor was given.
\<close>

definition insert_post ::
  "env \<Rightarrow> post list \<Rightarrow> string \<Rightarrow> string option \<Rightarrow> string option \<Rightarrow> string option
     \<Rightarrow> string option \<Rightarrow> post list" where
  "insert_post e ps title' topic' content media_type' media_filename' =
     ps @ [\<lparr>id_post = next_id ps,
            title = title',
            topic = (case topic' of None \<Rightarrow> default_topic | Some t \<Rightarrow> t),
            content_markdown = content,
            date_posted = utcnow e,
            media_type = media_type',
            media_filename = media_filename'\<rparr>]"

text \<open>
  \<open>db.session.get(Post, post_id)\<close> on the default database, SQLite. The key column is a
  signed 64-bit integer: binding a greater number as the key of the query raises
  OverflowError. Below that bound the lookup returns the row with that key, or \<open>None\<close>.
\<close>

definition session_get :: "post list \<Rightarrow> nat \<Rightarrow> exn + post option" where
  "session_get ps post_id =
     (if post_id < 2 ^ 63 then Inr (find (\<lambda>p. id_post p = post_id) ps)
      else Inl OverflowError)"

text \<open>\<open>Post.query.order_by(Post.date_posted.desc()).all()\<close>. The database leaves the order
  of rows with equal dates open; here the later row comes first.\<close>

definition order_by_date_posted_desc :: "post list \<Rightarrow> post list" where
  "order_by_date_posted_desc ps = rev (sort_key date_posted ps)"

section \<open>Routes\<close>

definition home :: "state \<Rightarrow> response" where
  "home s = Render (Index_html (order_by_date_posted_desc (posts s)))"

definition url_for_home :: string where
  "url_for_home = ''/''"

text \<open>
  The upload part of \<open>new_post\<close> (lines 89 to 108 of the source): the result is the state
  after it and either the exception raised or the pair \<open>(media_type, media_filename)\<close>. An
  uploaded file is true exactly when its name is not empty, so the first two conjuncts of
  the source's condition are the one test on the name. \<open>file.save\<close> either raises and
  leaves the file system as it was, or stores the stream under the path.
\<close>

definition process_upload ::
  "env \<Rightarrow> state \<Rightarrow> request \<Rightarrow> state \<times> (exn + string option \<times> string option)" where
  "process_upload e s r =
     (case files r ''media_file'' of
        None \<Rightarrow> (s, Inr (None, None))
      | Some file \<Rightarrow>
          if filename file \<noteq> [] then
            (case allowed_file (filename file) of
               Inl ex \<Rightarrow> (s, Inl ex)
             | Inr False \<Rightarrow> (s, Inr (None, None))
             | Inr True \<Rightarrow>
                 (let original_filename = secure_filename e (filename file)
                  in case index (rsplit1 original_filename CHR ''.'') 1 of
                       Inl ex \<Rightarrow> (s, Inl ex)
                     | Inr ext \<Rightarrow>
                         (let file_ext = lower ext;
                              unique_name = take 8 (uuid4_hex e) @ ''_'' @ original_filename;
                              save_path = os_path_join UPLOAD_FOLDER unique_name
                          in case save_raises e of
                               Some ex \<Rightarrow> (s, Inl ex)
                             | None \<Rightarrow>
                                 (let s' = s\<lparr>fs := (fs s)(save_path \<mapsto> stream file)\<rparr>
                                  in case get_file_type unique_name of
                                       Inl ex \<Rightarrow> (s', Inl ex)
                                     | Inr t \<Rightarrow> (s', Inr (Some t, Some unique_name))))))
          else (s, Inr (None, None)))"

text \<open>
  The route \<open>/new\<close>. Whatever is raised inside the \<open>try\<close> block is caught and rendered on
  the form; a commit that raises adds no row. Any other method than POST shows the empty
  form.
\<close>

definition new_post :: "env \<Rightarrow> state \<Rightarrow> request \<Rightarrow> state \<times> response" where
  "new_post e s r =
     (if request_method r = ''POST'' then
        (let title' = form r ''title'';
             topic' = form r ''topic'';
             content = form r ''content''
         in case process_upload e s r of
              (s', Inl ex) \<Rightarrow> (s', Render (New_post_html (Some (Publish_failed ex))))
            | (s', Inr (media_type', media_filename')) \<Rightarrow>
                if truthy title' \<and> (truthy content \<or> truthy media_filename') then
                  (case commit_raises e of
                     Some ex \<Rightarrow> (s', Render (New_post_html (Some (Publish_failed ex))))
                   | None \<Rightarrow>
                       (s'\<lparr>posts := insert_post e (posts s') (the title') topic' content
                                       media_type' media_filename'\<rparr>,
                        Redirect url_for_home))
                else (s', Render (New_post_html (Some Fill_in_title_and_content_or_file))))
      else (s, Render (New_post_html None)))"

text \<open>
  The route \<open>/post/<int:post_id>\<close>; the converter accepts every non-negative integer. The
  renderer \<open>markdown\<close> is a library function and a parameter here. The handler catches
  nothing: \<open>Inl\<close> is an exception that leaves it, which the framework answers with
  status 500.
\<close>

definition post_detail :: "(string \<Rightarrow> string) \<Rightarrow> state \<Rightarrow> nat \<Rightarrow> exn + response" where
  "post_detail markdown s post_id =
     (case session_get (posts s) post_id of
        Inl ex \<Rightarrow> Inl ex
      | Inr None \<Rightarrow> Inr (Abort 404)
      | Inr (Some p) \<Rightarrow>
          (let content_html =
                 (if truthy (content_markdown p) then markdown (the (content_markdown p))
                  else [])
           in Inr (Render (Detail_html p content_html))))"

text \<open>A run of the application: the create handler serving a sequence of requests.\<close>

fun serve :: "state \<Rightarrow> (env \<times> request) list \<Rightarrow> state" where
  "serve s [] = s"
| "serve s ((e, r) # rs) = serve (fst (new_post e s r)) rs"

text \<open>The condition under which \<open>new_post\<close> enters its upload branch: the request has a
  file part \<open>media_file\<close> whose name is not empty and is allowed.\<close>

definition upload_guard :: "request \<Rightarrow> bool" where
  "upload_guard r =
     (case files r ''media_file'' of
        None \<Rightarrow> False
      | Some file \<Rightarrow> filename file \<noteq> [] \<and> allowed_file (filename file) = Inr True)"

text \<open>The name under which an upload is stored, and the path it is saved to.\<close>

definition unique_name_of :: "env \<Rightarrow> file_storage \<Rightarrow> string" where
  "unique_name_of e file = take 8 (uuid4_hex e) @ ''_'' @ secure_filename e (filename file)"

definition save_path_of :: "env \<Rightarrow> file_storage \<Rightarrow> string" where
  "save_path_of e file = os_path_join UPLOAD_FOLDER (unique_name_of e file)"

section \<open>Sample inputs\<close>

text \<open>The names in the samples are ASCII, where the first step of the sanitiser is the
  identity.\<close>

definition sample_env :: env where
  "sample_env =
     \<lparr>secure_filename = werkzeug_secure_filename (\<lambda>name. name),
      uuid4_hex = ''0123456789abcdef0123456789abcdef'',
      utcnow = 1000,
      save_raises = None,
      commit_raises = None\<rparr>"

definition empty_state :: state where
  "empty_state = \<lparr>posts = [], fs = Map.empty\<rparr>"

definition post_request :: "(string \<times> string) list \<Rightarrow> file_storage option \<Rightarrow> request" where
  "post_request items file =
     \<lparr>request_method = ''POST'',
      form = map_of items,
      files = (case file of None \<Rightarrow> Map.empty | Some f \<Rightarrow> [''media_file'' \<mapsto> f])\<rparr>"

definition sample_post :: "nat \<Rightarrow> datetime \<Rightarrow> post" where
  "sample_post i t =
     \<lparr>id_post = i,
      title = ''Hello'',
      topic = default_topic,
      content_markdown = Some ''World'',
      date_posted = t,
      media_type = None,
      media_filename = None\<rparr>"

section \<open>Splitting off the extension\<close>

lemma takeWhile_upto:
  "sep \<notin> set xs \<Longrightarrow> takeWhile (\<lambda>c. c \<noteq> sep) (xs @ sep # ys) = xs"
  by (induction xs) auto

lemma dropWhile_upto:
  "sep \<notin> set xs \<Longrightarrow> dropWhile (\<lambda>c. c \<noteq> sep) (xs @ sep # ys) = sep # ys"
  by (induction xs) auto

lemma rsplit1_last:
  assumes "sep \<notin> set ext"
  shows "rsplit1 (base @ sep # ext) sep = [base, ext]"
proof -
  have notin: "sep \<notin> set (rev ext)"
    using assms by simp
  have "rev (base @ sep # ext) = rev ext @ sep # rev base"
    by simp
  then show ?thesis
    using takeWhile_upto [OF notin, of "rev base"] dropWhile_upto [OF notin, of "rev base"]
    by (simp add: rsplit1_def)
qed

lemma extension_of_dotted:
  "CHR ''.'' \<notin> set ext \<Longrightarrow> index (rsplit1 (base @ ''.'' @ ext) CHR ''.'') 1 = Inr ext"
  by (simp add: rsplit1_last index_def)

lemma extension_of_undotted:
  "CHR ''.'' \<notin> set s \<Longrightarrow> index (rsplit1 s CHR ''.'') 1 = Inl IndexError"
  by (simp add: rsplit1_def index_def)

lemma dotted_name:
  assumes "CHR ''.'' \<in> set s"
  obtains base ext where "s = base @ ''.'' @ ext" and "CHR ''.'' \<notin> set ext"
  using split_list_last [OF assms] by auto

lemma allowed_file_dotted:
  "CHR ''.'' \<notin> set ext \<Longrightarrow>
     allowed_file (base @ ''.'' @ ext) = Inr (lower ext \<in> ALLOWED_EXTENSIONS)"
  using extension_of_dotted [of ext base] by (simp add: allowed_file_def)

lemma allowed_file_undotted: "CHR ''.'' \<notin> set s \<Longrightarrow> allowed_file s = Inr False"
  by (simp add: allowed_file_def)

lemma allowed_file_total: "\<exists>b. allowed_file s = Inr b"
proof (cases "CHR ''.'' \<in> set s")
  case True
  then obtain base ext where "s = base @ ''.'' @ ext" "CHR ''.'' \<notin> set ext"
    by (rule dotted_name)
  then show ?thesis
    using allowed_file_dotted [of ext base] by simp
next
  case False
  then show ?thesis
    using allowed_file_undotted [of s] by blast
qed

lemma get_file_type_dotted:
  "CHR ''.'' \<notin> set ext \<Longrightarrow>
     get_file_type (base @ ''.'' @ ext) =
       Inr (if lower ext \<in> {''mp4'', ''mov'', ''avi'', ''webm''} then ''video'' else ''image'')"
  using extension_of_dotted [of ext base] by (simp add: get_file_type_def)

lemma get_file_type_undotted: "CHR ''.'' \<notin> set s \<Longrightarrow> get_file_type s = Inl IndexError"
  using extension_of_undotted [of s] by (simp add: get_file_type_def)

lemma get_file_type_of_dot:
  assumes "CHR ''.'' \<in> set s"
  shows "get_file_type s = Inr ''image'' \<or> get_file_type s = Inr ''video''"
proof -
  obtain base ext where "s = base @ ''.'' @ ext" "CHR ''.'' \<notin> set ext"
    using assms by (rule dotted_name)
  then show ?thesis
    using get_file_type_dotted [of ext base] by simp
qed

lemma allowed_file_has_dot: "allowed_file s = Inr True \<Longrightarrow> CHR ''.'' \<in> set s"
  by (simp add: allowed_file_def split: if_splits)

lemmas lower_defs = lower_def lower_char_def ascii_uppercase_def ascii_lowercase_def

section \<open>Classification by extension\<close>

text \<open>
  Claim C9. \<open>get_file_type\<close> raises exactly on the names without a dot. A name that
  \<open>allowed_file\<close> accepts has a dot, so there \<open>get_file_type\<close> returns \<open>image\<close> or
  \<open>video\<close>. On its own \<open>get_file_type\<close> rejects nothing: every dotted name is classified,
  every extension outside the video set as \<open>image\<close>, and so is an extension that
  \<open>allowed_file\<close> refuses.
\<close>

theorem get_file_type_in_isolation:
  "(get_file_type f = Inl IndexError \<longleftrightarrow> CHR ''.'' \<notin> set f) \<and>
   (allowed_file f = Inr True \<longrightarrow>
      get_file_type f = Inr ''image'' \<or> get_file_type f = Inr ''video'') \<and>
   (CHR ''.'' \<in> set f \<longrightarrow>
      get_file_type f = Inr ''image'' \<or> get_file_type f = Inr ''video'') \<and>
   (CHR ''.'' \<notin> set ext \<and> lower ext \<notin> {''mp4'', ''mov'', ''avi'', ''webm''} \<longrightarrow>
      get_file_type (base @ ''.'' @ ext) = Inr ''image'') \<and>
   (CHR ''.'' \<notin> set ext \<and> lower ext \<notin> ALLOWED_EXTENSIONS \<longrightarrow>
      allowed_file (base @ ''.'' @ ext) = Inr False \<and>
      get_file_type (base @ ''.'' @ ext) = Inr ''image'')"
proof (intro conjI impI)
  show "get_file_type f = Inl IndexError \<longleftrightarrow> CHR ''.'' \<notin> set f"
    using get_file_type_of_dot [of f] get_file_type_undotted [of f] by auto
  show "get_file_type f = Inr ''image'' \<or> get_file_type f = Inr ''video''"
    if "allowed_file f = Inr True"
    using that by (intro get_file_type_of_dot allowed_file_has_dot)
  show "get_file_type f = Inr ''image'' \<or> get_file_type f = Inr ''video''"
    if "CHR ''.'' \<in> set f"
    using that by (rule get_file_type_of_dot)
  show "get_file_type (base @ ''.'' @ ext) = Inr ''image''"
    if "CHR ''.'' \<notin> set ext \<and> lower ext \<notin> {''mp4'', ''mov'', ''avi'', ''webm''}"
    using that get_file_type_dotted [of ext base] by simp
  show "allowed_file (base @ ''.'' @ ext) = Inr False"
    if "CHR ''.'' \<notin> set ext \<and> lower ext \<notin> ALLOWED_EXTENSIONS"
    using that allowed_file_dotted [of ext base] by simp
  show "get_file_type (base @ ''.'' @ ext) = Inr ''image''"
    if "CHR ''.'' \<notin> set ext \<and> lower ext \<notin> ALLOWED_EXTENSIONS"
    using that get_file_type_dotted [of ext base] by (simp add: ALLOWED_EXTENSIONS_def)
qed

theorem get_file_type_in_isolation_witness:
  "get_file_type ''README'' = Inl IndexError \<and>
   allowed_file ''clip.webm'' = Inr True \<and> get_file_type ''clip.webm'' = Inr ''video'' \<and>
   allowed_file ''notes.txt'' = Inr False \<and> get_file_type ''notes.txt'' = Inr ''image''"
proof -
  have nodot: "CHR ''.'' \<notin> set ''README''" "CHR ''.'' \<notin> set ''txt''"
    by simp_all
  have not_allowed: "lower ''txt'' \<notin> ALLOWED_EXTENSIONS"
    by (simp add: lower_defs ALLOWED_EXTENSIONS_def)
  have webm: "allowed_file ''clip.webm'' = Inr True"
    using allowed_file_dotted [of "''webm''" "''clip''"]
    by (simp add: lower_defs ALLOWED_EXTENSIONS_def)
  have video: "get_file_type ''clip.webm'' = Inr ''video''"
    using get_file_type_dotted [of "''webm''" "''clip''"] by (simp add: lower_defs)
  show ?thesis
    using get_file_type_in_isolation [of "''README''" "''txt''" "''notes''"]
      get_file_type_in_isolation [of "''clip.webm''" "''txt''" "''notes''"]
      nodot not_allowed webm video
    by simp
qed

lemma process_upload_refused:
  assumes "files r ''media_file'' = Some file" and "allowed_file (filename file) = Inr False"
  shows "process_upload e s r = (s, Inr (None, None))"
  using assms by (simp add: process_upload_def)

text \<open>
  Claim C2. Classification is a function of the name, decided by the lowercased text after
  the last dot: the five image extensions are accepted and typed \<open>image\<close>, the four video
  extensions are accepted and typed \<open>video\<close>, every other extension is refused, and so is
  a name without a dot. A refused upload is not accepted by the handler: nothing is
  written and the request carries on without media.
\<close>

theorem media_classification:
  "(CHR ''.'' \<notin> set ext \<and> lower ext \<in> {''png'', ''jpg'', ''jpeg'', ''gif'', ''webp''} \<longrightarrow>
      allowed_file (base @ ''.'' @ ext) = Inr True \<and>
      get_file_type (base @ ''.'' @ ext) = Inr ''image'') \<and>
   (CHR ''.'' \<notin> set ext \<and> lower ext \<in> {''mp4'', ''mov'', ''avi'', ''webm''} \<longrightarrow>
      allowed_file (base @ ''.'' @ ext) = Inr True \<and>
      get_file_type (base @ ''.'' @ ext) = Inr ''video'') \<and>
   (CHR ''.'' \<notin> set ext \<and>
    lower ext \<notin> {''png'', ''jpg'', ''jpeg'', ''gif'', ''webp''} \<and>
    lower ext \<notin> {''mp4'', ''mov'', ''avi'', ''webm''} \<longrightarrow>
      allowed_file (base @ ''.'' @ ext) = Inr False) \<and>
   (CHR ''.'' \<notin> set f \<longrightarrow> allowed_file f = Inr False) \<and>
   (files r ''media_file'' = Some file \<and> allowed_file (filename file) = Inr False \<longrightarrow>
      process_upload e s r = (s, Inr (None, None)))"
proof (intro conjI impI)
  assume image: "CHR ''.'' \<notin> set ext \<and> lower ext \<in> {''png'', ''jpg'', ''jpeg'', ''gif'', ''webp''}"
  then show "allowed_file (base @ ''.'' @ ext) = Inr True"
    using allowed_file_dotted [of ext base] by (auto simp: ALLOWED_EXTENSIONS_def)
  from image show "get_file_type (base @ ''.'' @ ext) = Inr ''image''"
    using get_file_type_dotted [of ext base] by auto
next
  assume video: "CHR ''.'' \<notin> set ext \<and> lower ext \<in> {''mp4'', ''mov'', ''avi'', ''webm''}"
  then show "allowed_file (base @ ''.'' @ ext) = Inr True"
    using allowed_file_dotted [of ext base] by (auto simp: ALLOWED_EXTENSIONS_def)
  from video show "get_file_type (base @ ''.'' @ ext) = Inr ''video''"
    using get_file_type_dotted [of ext base] by auto
next
  assume "CHR ''.'' \<notin> set ext \<and>
    lower ext \<notin> {''png'', ''jpg'', ''jpeg'', ''gif'', ''webp''} \<and>
    lower ext \<notin> {''mp4'', ''mov'', ''avi'', ''webm''}"
  then show "allowed_file (base @ ''.'' @ ext) = Inr False"
    using allowed_file_dotted [of ext base] by (auto simp: ALLOWED_EXTENSIONS_def)
next
  assume "CHR ''.'' \<notin> set f"
  then show "allowed_file f = Inr False"
    by (rule allowed_file_undotted)
next
  assume "files r ''media_file'' = Some file \<and> allowed_file (filename file) = Inr False"
  then show "process_upload e s r = (s, Inr (None, None))"
    by (simp add: process_upload_refused)
qed

theorem media_classification_witness:
  "allowed_file ''cat.jpeg'' = Inr True \<and> get_file_type ''cat.jpeg'' = Inr ''image'' \<and>
   allowed_file ''talk.mov'' = Inr True \<and> get_file_type ''talk.mov'' = Inr ''video'' \<and>
   allowed_file ''setup.exe'' = Inr False \<and>
   allowed_file ''Makefile'' = Inr False \<and>
   process_upload
     \<lparr>secure_filename = werkzeug_secure_filename (\<lambda>name. name),
      uuid4_hex = ''0123456789abcdef0123456789abcdef'',
      utcnow = 0, save_raises = None, commit_raises = None\<rparr>
     \<lparr>posts = [], fs = Map.empty\<rparr>
     \<lparr>request_method = ''POST'', form = Map.empty,
      files = [''media_file'' \<mapsto> \<lparr>filename = ''Makefile'', stream = ''all:''\<rparr>]\<rparr>
   = (\<lparr>posts = [], fs = Map.empty\<rparr>, Inr (None, None))"
proof -
  let ?e = "\<lparr>secure_filename = werkzeug_secure_filename (\<lambda>name. name),
      uuid4_hex = ''0123456789abcdef0123456789abcdef'',
      utcnow = 0, save_raises = None, commit_raises = None\<rparr>"
  let ?s = "\<lparr>posts = [], fs = Map.empty\<rparr>"
  let ?file = "\<lparr>filename = ''Makefile'', stream = ''all:''\<rparr>"
  let ?r = "\<lparr>request_method = ''POST'', form = Map.empty, files = [''media_file'' \<mapsto> ?file]\<rparr>"
  have "allowed_file ''cat.jpeg'' = Inr True \<and> get_file_type ''cat.jpeg'' = Inr ''image''"
    using media_classification [of "''jpeg''" "''cat''" "''Makefile''" ?r ?file ?e ?s]
    by (simp add: lower_defs)
  moreover have "allowed_file ''talk.mov'' = Inr True \<and> get_file_type ''talk.mov'' = Inr ''video''"
    using media_classification [of "''mov''" "''talk''" "''Makefile''" ?r ?file ?e ?s]
    by (simp add: lower_defs)
  moreover have "allowed_file ''setup.exe'' = Inr False"
    using media_classification [of "''exe''" "''setup''" "''Makefile''" ?r ?file ?e ?s]
    by (simp add: lower_defs)
  moreover have "allowed_file ''Makefile'' = Inr False \<and>
      process_upload ?e ?s ?r = (?s, Inr (None, None))"
    using media_classification [of "''exe''" "''setup''" "''Makefile''" ?r ?file ?e ?s]
    by simp
  ultimately show ?thesis
    by simp
qed

text \<open>
  Claim C10. Two names that differ only in the letter case of the extension (their
  extensions have the same lowercase form) are accepted or refused alike and typed alike;
  \<open>PHOTO.PNG\<close> is an accepted image and \<open>MOVIE.MP4\<close> an accepted video.
\<close>

theorem extension_case_insensitive:
  assumes "CHR ''.'' \<notin> set ext" and "CHR ''.'' \<notin> set ext'" and "lower ext' = lower ext"
  shows "allowed_file (base @ ''.'' @ ext') = allowed_file (base @ ''.'' @ ext) \<and>
         get_file_type (base @ ''.'' @ ext') = get_file_type (base @ ''.'' @ ext)"
  using assms allowed_file_dotted [of ext base] allowed_file_dotted [of ext' base]
    get_file_type_dotted [of ext base] get_file_type_dotted [of ext' base]
  by simp

theorem extension_case_insensitive_witness:
  "allowed_file ''PHOTO.PNG'' = Inr True \<and> get_file_type ''PHOTO.PNG'' = Inr ''image'' \<and>
   allowed_file ''MOVIE.MP4'' = Inr True \<and> get_file_type ''MOVIE.MP4'' = Inr ''video''"
proof -
  have png: "CHR ''.'' \<notin> set ''png''" "CHR ''.'' \<notin> set ''PNG''" "lower ''PNG'' = lower ''png''"
    by (simp_all add: lower_defs)
  have mp4: "CHR ''.'' \<notin> set ''mp4''" "CHR ''.'' \<notin> set ''MP4''" "lower ''MP4'' = lower ''mp4''"
    by (simp_all add: lower_defs)
  have lowercase:
    "allowed_file ''PHOTO.png'' = Inr True" "get_file_type ''PHOTO.png'' = Inr ''image''"
    "allowed_file ''MOVIE.mp4'' = Inr True" "get_file_type ''MOVIE.mp4'' = Inr ''video''"
    using allowed_file_dotted [of "''png''" "''PHOTO''"] get_file_type_dotted [of "''png''" "''PHOTO''"]
      allowed_file_dotted [of "''mp4''" "''MOVIE''"] get_file_type_dotted [of "''mp4''" "''MOVIE''"]
    by (simp_all add: lower_defs ALLOWED_EXTENSIONS_def)
  show ?thesis
    using extension_case_insensitive [OF png, of "''PHOTO''"]
      extension_case_insensitive [OF mp4, of "''MOVIE''"] lowercase
    by simp
qed

section \<open>The upload branch\<close>

lemma process_upload_skipped:
  assumes "\<not> upload_guard r"
  shows "process_upload e s r = (s, Inr (None, None))"
proof (cases "files r ''media_file''")
  case None
  then show ?thesis
    by (simp add: process_upload_def)
next
  case (Some part)
  obtain b where b: "allowed_file (filename part) = Inr b"
    using allowed_file_total by blast
  with Some assms have "filename part = [] \<or> \<not> b"
    by (auto simp: upload_guard_def)
  with Some b show ?thesis
    by (auto simp: process_upload_def)
qed

lemma unique_name_dotted:
  "CHR ''.'' \<in> set (secure_filename e (filename file)) \<Longrightarrow> CHR ''.'' \<in> set (unique_name_of e file)"
  by (simp add: unique_name_of_def)

lemma process_upload_entered:
  assumes "files r ''media_file'' = Some file" and "upload_guard r"
  shows "process_upload e s r =
     (if CHR ''.'' \<notin> set (secure_filename e (filename file)) then (s, Inl IndexError)
      else case save_raises e of
             Some ex \<Rightarrow> (s, Inl ex)
           | None \<Rightarrow>
               (s\<lparr>fs := (fs s)(save_path_of e file \<mapsto> stream file)\<rparr>,
                Inr (Some (if get_file_type (unique_name_of e file) = Inr ''video''
                           then ''video'' else ''image''),
                     Some (unique_name_of e file))))"
proof -
  have guard: "filename file \<noteq> []" "allowed_file (filename file) = Inr True"
    using assms by (simp_all add: upload_guard_def)
  show ?thesis
  proof (cases "CHR ''.'' \<in> set (secure_filename e (filename file))")
    case False
    then show ?thesis
      using assms(1) guard extension_of_undotted [of "secure_filename e (filename file)"]
      by (simp add: process_upload_def)
  next
    case True
    then obtain ext where ext: "index (rsplit1 (secure_filename e (filename file)) CHR ''.'') 1 = Inr ext"
      by (auto simp: rsplit1_def index_def)
    from True have "CHR ''.'' \<in> set (unique_name_of e file)"
      by (rule unique_name_dotted)
    then have "get_file_type (unique_name_of e file) = Inr ''image'' \<or>
        get_file_type (unique_name_of e file) = Inr ''video''"
      by (rule get_file_type_of_dot)
    then show ?thesis
      using assms(1) guard True ext
      by (auto simp: process_upload_def Let_def unique_name_of_def save_path_of_def
          split: option.splits)
  qed
qed

lemma process_upload_posts: "posts (fst (process_upload e s r)) = posts s"
proof (cases "upload_guard r")
  case False
  then show ?thesis
    by (simp add: process_upload_skipped)
next
  case True
  then obtain part where "files r ''media_file'' = Some part"
    by (auto simp: upload_guard_def split: option.splits)
  with True show ?thesis
    by (simp add: process_upload_entered split: option.splits)
qed

lemma process_upload_media:
  assumes "process_upload e s r = (s', Inr (mt, mf))"
  shows "(mt = None \<and> mf = None \<and> s' = s \<and> \<not> upload_guard r) \<or>
         (\<exists>file. files r ''media_file'' = Some file \<and> upload_guard r \<and>
            (mt = Some ''image'' \<or> mt = Some ''video'') \<and>
            get_file_type (unique_name_of e file) = Inr (the mt) \<and>
            mf = Some (unique_name_of e file) \<and>
            s' = s\<lparr>fs := (fs s)(save_path_of e file \<mapsto> stream file)\<rparr>)"
proof (cases "upload_guard r")
  case False
  with assms show ?thesis
    by (simp add: process_upload_skipped)
next
  case True
  then obtain part where part: "files r ''media_file'' = Some part"
    by (auto simp: upload_guard_def split: option.splits)
  have dot: "CHR ''.'' \<in> set (secure_filename e (filename part))"
    using assms process_upload_entered [OF part True, of e s] by (auto split: if_splits)
  then have "get_file_type (unique_name_of e part) = Inr ''image'' \<or>
      get_file_type (unique_name_of e part) = Inr ''video''"
    by (intro get_file_type_of_dot unique_name_dotted)
  then show ?thesis
    using assms process_upload_entered [OF part True, of e s] part True dot
    by (auto split: if_splits option.splits)
qed

section \<open>The create handler\<close>

lemma new_post_get:
  "request_method r \<noteq> ''POST'' \<Longrightarrow> new_post e s r = (s, Render (New_post_html None))"
  by (simp add: new_post_def)

lemma new_post_raised:
  assumes "request_method r = ''POST''" and "process_upload e s r = (s', Inl ex)"
  shows "new_post e s r = (s', Render (New_post_html (Some (Publish_failed ex))))"
  using assms by (simp add: new_post_def Let_def)

lemma new_post_invalid:
  assumes "request_method r = ''POST''" and "process_upload e s r = (s', Inr (mt, mf))"
    and "\<not> (truthy (form r ''title'') \<and> (truthy (form r ''content'') \<or> truthy mf))"
  shows "new_post e s r = (s', Render (New_post_html (Some Fill_in_title_and_content_or_file)))"
  using assms by (auto simp: new_post_def Let_def)

lemma new_post_commit_raised:
  assumes "request_method r = ''POST''" and "process_upload e s r = (s', Inr (mt, mf))"
    and "truthy (form r ''title'')" and "truthy (form r ''content'') \<or> truthy mf"
    and "commit_raises e = Some ex"
  shows "new_post e s r = (s', Render (New_post_html (Some (Publish_failed ex))))"
  using assms by (simp add: new_post_def Let_def)

lemma new_post_created:
  assumes "request_method r = ''POST''" and "process_upload e s r = (s', Inr (mt, mf))"
    and "truthy (form r ''title'')" and "truthy (form r ''content'') \<or> truthy mf"
    and "commit_raises e = None"
  shows "new_post e s r =
     (s'\<lparr>posts := posts s @
         [\<lparr>id_post = next_id (posts s),
           title = the (form r ''title''),
           topic = (case form r ''topic'' of None \<Rightarrow> default_topic | Some t \<Rightarrow> t),
           content_markdown = form r ''content'',
           date_posted = utcnow e,
           media_type = mt,
           media_filename = mf\<rparr>]\<rparr>,
      Redirect ''/'')"
proof -
  have "posts s' = posts s"
    using process_upload_posts [of e s r] assms(2) by simp
  then show ?thesis
    using assms by (simp add: new_post_def Let_def insert_post_def url_for_home_def)
qed

text \<open>Every way through the handler, by the outcome of the upload branch, of the
  validation and of the commit.\<close>

lemma new_post_outcomes:
  assumes "request_method r = ''POST''"
  obtains
    (raised) s' ex where "process_upload e s r = (s', Inl ex)"
      and "new_post e s r = (s', Render (New_post_html (Some (Publish_failed ex))))"
  | (invalid) s' mt mf where "process_upload e s r = (s', Inr (mt, mf))"
      and "\<not> (truthy (form r ''title'') \<and> (truthy (form r ''content'') \<or> truthy mf))"
      and "new_post e s r = (s', Render (New_post_html (Some Fill_in_title_and_content_or_file)))"
  | (commit_raised) s' mt mf ex where "process_upload e s r = (s', Inr (mt, mf))"
      and "truthy (form r ''title'')" and "truthy (form r ''content'') \<or> truthy mf"
      and "commit_raises e = Some ex"
      and "new_post e s r = (s', Render (New_post_html (Some (Publish_failed ex))))"
  | (created) s' mt mf where "process_upload e s r = (s', Inr (mt, mf))"
      and "truthy (form r ''title'')" and "truthy (form r ''content'') \<or> truthy mf"
      and "commit_raises e = None"
      and "new_post e s r =
        (s'\<lparr>posts := posts s @
            [\<lparr>id_post = next_id (posts s),
              title = the (form r ''title''),
              topic = (case form r ''topic'' of None \<Rightarrow> default_topic | Some t \<Rightarrow> t),
              content_markdown = form r ''content'',
              date_posted = utcnow e,
              media_type = mt,
              media_filename = mf\<rparr>]\<rparr>,
         Redirect ''/'')"
proof -
  obtain s' res where pu: "process_upload e s r = (s', res)"
    by (cases "process_upload e s r")
  show thesis
  proof (cases res)
    case (Inl ex)
    with pu show thesis
      using raised new_post_raised [OF assms] by simp
  next
    case (Inr media)
    obtain mt mf where media: "media = (mt, mf)"
      by (cases media)
    note pu' = pu [unfolded Inr media]
    show thesis
    proof (cases "truthy (form r ''title'') \<and> (truthy (form r ''content'') \<or> truthy mf)")
      case False
      then show thesis
        using invalid [OF pu'] new_post_invalid [OF assms pu'] by blast
    next
      case True
      show thesis
      proof (cases "commit_raises e")
        case None
        then show thesis
          using created [OF pu'] new_post_created [OF assms pu'] True by blast
      next
        case (Some ex)
        then show thesis
          using commit_raised [OF pu'] new_post_commit_raised [OF assms pu'] True by blast
      qed
    qed
  qed
qed

lemma new_post_redirected:
  assumes "snd (new_post e s r) = Redirect url"
  obtains s' mt mf where "request_method r = ''POST''"
    and "process_upload e s r = (s', Inr (mt, mf))"
    and "truthy (form r ''title'')" and "truthy (form r ''content'') \<or> truthy mf"
    and "commit_raises e = None"
    and "new_post e s r =
        (s'\<lparr>posts := posts s @
            [\<lparr>id_post = next_id (posts s),
              title = the (form r ''title''),
              topic = (case form r ''topic'' of None \<Rightarrow> default_topic | Some t \<Rightarrow> t),
              content_markdown = form r ''content'',
              date_posted = utcnow e,
              media_type = mt,
              media_filename = mf\<rparr>]\<rparr>,
         Redirect ''/'')"
proof -
  have post: "request_method r = ''POST''"
    using assms new_post_get [of r e s] by (cases "request_method r = ''POST''") auto
  from post show thesis
  proof (cases rule: new_post_outcomes [where e = e and s = s and r = r])
    case (created s' mt mf)
    with post that show thesis
      by blast
  qed (use assms in auto)
qed

lemma new_post_posts:
  "posts (fst (new_post e s r)) = posts s \<or>
   (\<exists>p. posts (fst (new_post e s r)) = posts s @ [p] \<and>
        (media_type p = None \<longleftrightarrow> media_filename p = None) \<and>
        snd (new_post e s r) = Redirect ''/'')"
proof (cases "request_method r = ''POST''")
  case False
  then show ?thesis
    by (simp add: new_post_get)
next
  case True
  then show ?thesis
  proof (cases rule: new_post_outcomes [where e = e and s = s and r = r])
    case (created s' mt mf)
    have "mt = None \<longleftrightarrow> mf = None"
      using process_upload_media [OF created(1)] by auto
    with created(5) show ?thesis
      by simp
  qed (use process_upload_posts [of e s r] in auto)
qed

lemmas sample_defs = sample_env_def empty_state_def post_request_def

lemmas sanitiser_defs = werkzeug_secure_filename_def is_space_def
  split_whitespace_def strip_def digits_def filename_ascii_chars_def ascii_uppercase_def
  ascii_lowercase_def

lemmas handler_defs = new_post_def process_upload_def allowed_file_def get_file_type_def
  rsplit1_def index_def truthy_def Let_def insert_post_def next_id_def url_for_home_def
  ALLOWED_EXTENSIONS_def UPLOAD_FOLDER_def os_path_join_def

text \<open>
  Claim C7. A POST to \<open>/new\<close> has two outcomes. Either a row is added and the response is
  a redirect to \<open>/\<close>, or no row is added and the response is the form, rendered with
  status 200 and an error message. An exception raised while the upload is handled, an
  exception raised by the commit, and a request without a title or without both content
  and an accepted file all end in the second outcome: the handler returns a response in
  every case.
\<close>

theorem new_post_responses:
  assumes "request_method r = ''POST''"
  shows "((snd (new_post e s r) = Redirect ''/'' \<and> status (snd (new_post e s r)) = 302 \<and>
           (\<exists>p. posts (fst (new_post e s r)) = posts s @ [p])) \<or>
          ((\<exists>msg. snd (new_post e s r) = Render (New_post_html (Some msg))) \<and>
           status (snd (new_post e s r)) = 200 \<and>
           posts (fst (new_post e s r)) = posts s)) \<and>
         (\<forall>ex. snd (process_upload e s r) = Inl ex \<longrightarrow>
            snd (new_post e s r) = Render (New_post_html (Some (Publish_failed ex)))) \<and>
         (\<forall>ex. commit_raises e = Some ex \<longrightarrow>
            (\<exists>msg. snd (new_post e s r) = Render (New_post_html (Some msg)))) \<and>
         (\<not> (truthy (form r ''title'') \<and> (truthy (form r ''content'') \<or> upload_guard r)) \<longrightarrow>
            (\<exists>msg. snd (new_post e s r) = Render (New_post_html (Some msg))))"
  using assms
proof (cases rule: new_post_outcomes [where e = e and s = s and r = r])
  case (raised s' ex)
  then show ?thesis
    using process_upload_posts [of e s r] by simp
next
  case (invalid s' mt mf)
  then show ?thesis
    using process_upload_posts [of e s r] by simp
next
  case (commit_raised s' mt mf ex)
  then show ?thesis
    using process_upload_posts [of e s r] process_upload_media [OF commit_raised(1)]
    by (auto simp: truthy_def)
next
  case (created s' mt mf)
  then show ?thesis
    using process_upload_media [OF created(1)] by (auto simp: truthy_def)
qed

theorem new_post_responses_witness:
  "new_post sample_env empty_state
     (post_request [(''title'', ''Hello''), (''content'', ''World'')] None) =
     (\<lparr>posts = [\<lparr>id_post = 1, title = ''Hello'', topic = default_topic,
                  content_markdown = Some ''World'', date_posted = 1000,
                  media_type = None, media_filename = None\<rparr>],
       fs = Map.empty\<rparr>,
      Redirect ''/'') \<and>
   snd (new_post (sample_env\<lparr>commit_raises := Some SQLAlchemyError\<rparr>) empty_state
     (post_request [(''title'', ''Hello''), (''content'', ''World'')] None)) =
     Render (New_post_html (Some (Publish_failed SQLAlchemyError))) \<and>
   snd (new_post sample_env empty_state (post_request [(''title'', ''Hello'')] None)) =
     Render (New_post_html (Some Fill_in_title_and_content_or_file))"
proof -
  let ?r = "post_request [(''title'', ''Hello''), (''content'', ''World'')] None"
  let ?r' = "post_request [(''title'', ''Hello'')] None"
  let ?e = "sample_env\<lparr>commit_raises := Some SQLAlchemyError\<rparr>"
  have post: "request_method ?r = ''POST''" "request_method ?r' = ''POST''"
    by (simp_all add: post_request_def)
  have "new_post sample_env empty_state ?r =
     (\<lparr>posts = [\<lparr>id_post = 1, title = ''Hello'', topic = default_topic,
                  content_markdown = Some ''World'', date_posted = 1000,
                  media_type = None, media_filename = None\<rparr>],
       fs = Map.empty\<rparr>,
      Redirect ''/'')"
    using new_post_responses [OF post(1), of sample_env empty_state]
    by (simp add: sample_defs handler_defs)
  moreover have "snd (new_post ?e empty_state ?r) =
     Render (New_post_html (Some (Publish_failed SQLAlchemyError)))"
    using new_post_responses [OF post(1), of ?e empty_state]
    by (simp add: sample_defs handler_defs)
  moreover have "snd (new_post sample_env empty_state ?r') =
     Render (New_post_html (Some Fill_in_title_and_content_or_file))"
    using new_post_responses [OF post(2), of sample_env empty_state]
    by (simp add: sample_defs handler_defs)
  ultimately show ?thesis
    by simp
qed

text \<open>
  The upload condition reads the submitted name, while the extension is then taken from
  the sanitised name. A name such as \<open>.png\<close> passes the condition and loses its dot in the
  sanitiser, so the request ends in the form with the message of the IndexError, although
  it has a title and content; nothing is written and no row is added.
\<close>

lemma dotless_sanitised_name_raises:
  "allowed_file ''.png'' = Inr True \<and>
   werkzeug_secure_filename (\<lambda>name. name) ''.png'' = ''png'' \<and>
   new_post sample_env empty_state
     (post_request [(''title'', ''Hello''), (''content'', ''World'')]
        (Some \<lparr>filename = ''.png'', stream = ''PNG''\<rparr>)) =
     (empty_state, Render (New_post_html (Some (Publish_failed IndexError))))"
  by (simp add: sample_defs handler_defs lower_defs sanitiser_defs)

section \<open>The rows that are created\<close>

text \<open>
  Claim C3. The row added by a successful create has \<open>media_type\<close> and \<open>media_filename\<close>
  both present or both absent. A valid request with a title and content whose upload
  branch is not entered (no file part, an empty file name or a refused name) yields a row
  with both absent. Hence the property holds of every row of the table after any sequence
  of requests, if it held before.
\<close>

theorem media_fields_together:
  "(snd (new_post e s r) = Redirect url \<longrightarrow>
      (\<exists>p. posts (fst (new_post e s r)) = posts s @ [p] \<and>
           (media_type p = None \<longleftrightarrow> media_filename p = None))) \<and>
   (request_method r = ''POST'' \<and> truthy (form r ''title'') \<and> truthy (form r ''content'') \<and>
    \<not> upload_guard r \<and> commit_raises e = None \<longrightarrow>
      (\<exists>p. new_post e s r = (s\<lparr>posts := posts s @ [p]\<rparr>, Redirect ''/'') \<and>
           media_type p = None \<and> media_filename p = None)) \<and>
   ((\<forall>p \<in> set (posts s). media_type p = None \<longleftrightarrow> media_filename p = None) \<longrightarrow>
      (\<forall>p \<in> set (posts (serve s ers)). media_type p = None \<longleftrightarrow> media_filename p = None))"
proof (intro conjI impI)
  assume "snd (new_post e s r) = Redirect url"
  then show "\<exists>p. posts (fst (new_post e s r)) = posts s @ [p] \<and>
      (media_type p = None \<longleftrightarrow> media_filename p = None)"
  proof (rule new_post_redirected)
    fix s' mt mf
    assume pu: "process_upload e s r = (s', Inr (mt, mf))"
      and np: "new_post e s r =
        (s'\<lparr>posts := posts s @
            [\<lparr>id_post = next_id (posts s),
              title = the (form r ''title''),
              topic = (case form r ''topic'' of None \<Rightarrow> default_topic | Some t \<Rightarrow> t),
              content_markdown = form r ''content'',
              date_posted = utcnow e,
              media_type = mt,
              media_filename = mf\<rparr>]\<rparr>,
         Redirect ''/'')"
    have "mt = None \<longleftrightarrow> mf = None"
      using process_upload_media [OF pu] by auto
    with np show ?thesis
      by simp
  qed
next
  assume valid: "request_method r = ''POST'' \<and> truthy (form r ''title'') \<and>
    truthy (form r ''content'') \<and> \<not> upload_guard r \<and> commit_raises e = None"
  then have pu: "process_upload e s r = (s, Inr (None, None))"
    by (simp add: process_upload_skipped)
  let ?p = "\<lparr>id_post = next_id (posts s),
      title = the (form r ''title''),
      topic = (case form r ''topic'' of None \<Rightarrow> default_topic | Some t \<Rightarrow> t),
      content_markdown = form r ''content'',
      date_posted = utcnow e,
      media_type = None,
      media_filename = None\<rparr>"
  have "new_post e s r = (s\<lparr>posts := posts s @ [?p]\<rparr>, Redirect ''/'')"
    using valid new_post_created [OF _ pu] by simp
  then show "\<exists>p. new_post e s r = (s\<lparr>posts := posts s @ [p]\<rparr>, Redirect ''/'') \<and>
      media_type p = None \<and> media_filename p = None"
    by (intro exI [of _ ?p]) simp
next
  assume "\<forall>p \<in> set (posts s). media_type p = None \<longleftrightarrow> media_filename p = None"
  then show "\<forall>p \<in> set (posts (serve s ers)). media_type p = None \<longleftrightarrow> media_filename p = None"
  proof (induction ers arbitrary: s)
    case Nil
    then show ?case
      by simp
  next
    case (Cons er ers)
    obtain e r where er: "er = (e, r)"
      by (cases er)
    have "\<forall>p \<in> set (posts (fst (new_post e s r))). media_type p = None \<longleftrightarrow> media_filename p = None"
      using new_post_posts [of e s r] Cons.prems by auto
    then show ?case
      using Cons.IH [of "fst (new_post e s r)"] er by simp
  qed
qed


theorem media_fields_together_witness:
  "new_post sample_env empty_state
     (post_request [(''title'', ''Hello''), (''content'', ''World'')] None) =
     (empty_state\<lparr>posts := posts empty_state @
        [\<lparr>id_post = 1, title = ''Hello'', topic = default_topic,
          content_markdown = Some ''World'', date_posted = 1000,
          media_type = None, media_filename = None\<rparr>]\<rparr>,
      Redirect ''/'') \<and>
   posts (fst (new_post sample_env empty_state
     (post_request [(''title'', ''Lab'')] (Some \<lparr>filename = ''scope.png'', stream = ''PNG''\<rparr>)))) =
     [\<lparr>id_post = 1, title = ''Lab'', topic = default_topic,
       content_markdown = None, date_posted = 1000,
       media_type = Some ''image'', media_filename = Some ''01234567_scope.png''\<rparr>] \<and>
   map (\<lambda>p. (media_type p, media_filename p)) (posts (serve empty_state
        [(sample_env, post_request [(''title'', ''Lab'')]
            (Some \<lparr>filename = ''scope.png'', stream = ''PNG''\<rparr>)),
         (sample_env, post_request [(''title'', ''Hello''), (''content'', ''World'')] None)])) =
     [(Some ''image'', Some ''01234567_scope.png''), (None, None)]"
proof -
  let ?r = "post_request [(''title'', ''Hello''), (''content'', ''World'')] None"
  let ?r' = "post_request [(''title'', ''Lab'')] (Some \<lparr>filename = ''scope.png'', stream = ''PNG''\<rparr>)"
  have r: "request_method ?r = ''POST'' \<and> truthy (form ?r ''title'') \<and>
      truthy (form ?r ''content'') \<and> \<not> upload_guard ?r \<and> commit_raises sample_env = None"
    by (simp add: sample_defs truthy_def upload_guard_def)
  have r': "snd (new_post sample_env empty_state ?r') = Redirect ''/''"
    by (simp add: sample_defs handler_defs lower_defs sanitiser_defs)
  have init: "\<forall>p \<in> set (posts empty_state). media_type p = None \<longleftrightarrow> media_filename p = None"
    by (simp add: empty_state_def)
  have "new_post sample_env empty_state ?r =
     (empty_state\<lparr>posts := posts empty_state @
        [\<lparr>id_post = 1, title = ''Hello'', topic = default_topic,
          content_markdown = Some ''World'', date_posted = 1000,
          media_type = None, media_filename = None\<rparr>]\<rparr>,
      Redirect ''/'')"
    using media_fields_together [of sample_env empty_state ?r "''/''" "[]"] r
    by (simp add: sample_defs handler_defs)
  moreover have "posts (fst (new_post sample_env empty_state ?r')) =
     [\<lparr>id_post = 1, title = ''Lab'', topic = default_topic,
       content_markdown = None, date_posted = 1000,
       media_type = Some ''image'', media_filename = Some ''01234567_scope.png''\<rparr>]"
    using media_fields_together [of sample_env empty_state ?r' "''/''" "[]"] r'
    by (simp add: sample_defs handler_defs lower_defs sanitiser_defs)
  moreover have "map (\<lambda>p. (media_type p, media_filename p))
      (posts (serve empty_state [(sample_env, ?r'), (sample_env, ?r)])) =
      [(Some ''image'', Some ''01234567_scope.png''), (None, None)]"
    using media_fields_together [of sample_env empty_state ?r "''/''"
        "[(sample_env, ?r'), (sample_env, ?r)]"] init
    by (simp add: sample_defs handler_defs lower_defs sanitiser_defs)
  ultimately show ?thesis
    by simp
qed

text \<open>
  Claim C8, amended. The row added by a successful create has the default category label
  as its topic when the form has no \<open>topic\<close> field, and otherwise the submitted value as
  it is, the empty string included.
\<close>

theorem persisted_topic:
  assumes "snd (new_post e s r) = Redirect url"
  shows "\<exists>p. posts (fst (new_post e s r)) = posts s @ [p] \<and>
           topic p = (case form r ''topic'' of None \<Rightarrow> default_topic | Some t \<Rightarrow> t)"
  using assms
proof (rule new_post_redirected)
  fix s' mt mf
  assume "new_post e s r =
        (s'\<lparr>posts := posts s @
            [\<lparr>id_post = next_id (posts s),
              title = the (form r ''title''),
              topic = (case form r ''topic'' of None \<Rightarrow> default_topic | Some t \<Rightarrow> t),
              content_markdown = form r ''content'',
              date_posted = utcnow e,
              media_type = mt,
              media_filename = mf\<rparr>]\<rparr>,
         Redirect ''/'')"
  then show ?thesis
    by simp
qed

theorem persisted_topic_witness:
  "map topic (posts (fst (new_post sample_env empty_state
      (post_request [(''title'', ''Hello''), (''content'', ''World'')] None)))) =
     [default_topic] \<and>
   map topic (posts (fst (new_post sample_env empty_state
      (post_request [(''title'', ''Hello''), (''topic'', ''Circuits''), (''content'', ''World'')]
         None)))) =
     [''Circuits'']"
proof -
  let ?r = "post_request [(''title'', ''Hello''), (''content'', ''World'')] None"
  let ?r' = "post_request [(''title'', ''Hello''), (''topic'', ''Circuits''), (''content'', ''World'')] None"
  have r: "snd (new_post sample_env empty_state ?r) = Redirect ''/''"
    by (simp add: sample_defs handler_defs)
  have r': "snd (new_post sample_env empty_state ?r') = Redirect ''/''"
    by (simp add: sample_defs handler_defs)
  have "map topic (posts (fst (new_post sample_env empty_state ?r))) = [default_topic]"
    using persisted_topic [OF r] by (auto simp: sample_defs)
  moreover have "map topic (posts (fst (new_post sample_env empty_state ?r'))) = [''Circuits'']"
    using persisted_topic [OF r'] by (auto simp: sample_defs)
  ultimately show ?thesis
    by simp
qed

text \<open>A topic submitted empty is stored empty: it does not become the default label.\<close>

theorem empty_topic_counterexample:
  "form (post_request [(''title'', ''Hello''), (''topic'', []), (''content'', ''World'')] None)
     ''topic'' = Some [] \<and>
   map topic (posts (fst (new_post sample_env empty_state
      (post_request [(''title'', ''Hello''), (''topic'', []), (''content'', ''World'')] None)))) =
     [[]] \<and>
   default_topic \<noteq> []"
  by (simp add: sample_defs handler_defs default_topic_def)

section \<open>Reading posts\<close>

text \<open>
  Claim C5, amended. When the requested key is below \<open>2 ^ 63\<close> and no row has it, the lookup
  returns \<open>None\<close> (it does not raise) and the detail handler answers with status 404.
\<close>

theorem missing_post_not_found:
  assumes "post_id < 2 ^ 63" and "\<forall>p \<in> set (posts s). id_post p \<noteq> post_id"
  shows "session_get (posts s) post_id = Inr None \<and>
         post_detail markdown s post_id = Inr (Abort 404) \<and>
         status (Abort 404) = 404"
proof -
  have "find (\<lambda>p. id_post p = post_id) (posts s) = None"
    using assms(2) by (auto simp: find_None_iff)
  then have "session_get (posts s) post_id = Inr None"
    using assms(1) by (simp add: session_get_def)
  then show ?thesis
    by (simp add: post_detail_def)
qed

theorem missing_post_not_found_witness:
  "session_get [sample_post 1 1000] 9999 = Inr None \<and>
   post_detail (\<lambda>text. text) \<lparr>posts = [sample_post 1 1000], fs = Map.empty\<rparr> 9999 =
     Inr (Abort 404)"
proof -
  let ?s = "\<lparr>posts = [sample_post 1 1000], fs = Map.empty\<rparr>"
  have small: "(9999 :: nat) < 2 ^ 63"
    by simp
  have "\<forall>p \<in> set (posts ?s). id_post p \<noteq> 9999"
    by (simp add: sample_post_def)
  from missing_post_not_found [OF small this] show ?thesis
    by simp
qed

text \<open>No row has the key \<open>2 ^ 63\<close>, and the lookup for it raises: the handler does not answer
  with status 404 there, the exception leaves it.\<close>

theorem huge_id_counterexample:
  "id_post (sample_post 1 1000) \<noteq> 9223372036854775808 \<and>
   session_get [sample_post 1 1000] 9223372036854775808 = Inl OverflowError \<and>
   post_detail (\<lambda>text. text) \<lparr>posts = [sample_post 1 1000], fs = Map.empty\<rparr>
     9223372036854775808 = Inl OverflowError"
  by (simp add: sample_post_def session_get_def post_detail_def)

lemma sort_key_three:
  assumes "mset xs = {#p1, p2, p3#}" and "f p1 < f p2" and "f p2 < f p3"
  shows "sort_key f xs = [p1, p2, p3]"
proof (rule properties_for_sort_key)
  have less: "f p1 < f p3"
    using assms(2,3) by (rule less_trans)
  have neq: "f p1 \<noteq> f p2" "f p2 \<noteq> f p3" "f p1 \<noteq> f p3"
    using assms(2,3) less by simp_all
  show "mset [p1, p2, p3] = mset xs"
    using assms(1) by simp
  show "sorted (map f [p1, p2, p3])"
    using assms(2,3) less by (simp add: less_imp_le)
  fix k
  assume "k \<in> set [p1, p2, p3]"
  then have k: "k = p1 \<or> k = p2 \<or> k = p3"
    by simp
  have "mset (filter (\<lambda>x. f k = f x) xs) = filter_mset (\<lambda>x. f k = f x) {#p1, p2, p3#}"
    by (simp only: mset_filter assms(1))
  also have "\<dots> = {#k#}"
    using k neq by auto
  finally have "filter (\<lambda>x. f k = f x) xs = [k]"
    by (simp only: mset_single_iff)
  moreover have "filter (\<lambda>x. f k = f x) [p1, p2, p3] = [k]"
    using k neq by auto
  ultimately show "filter (\<lambda>x. f k = f x) [p1, p2, p3] = filter (\<lambda>x. f k = f x) xs"
    by simp
qed

text \<open>
  Claim C6. The listing holds exactly the rows of the table, ordered by \<open>date_posted\<close> from
  the newest to the oldest. In particular, a table holding three posts with dates
  \<open>t1 < t2 < t3\<close>, in whatever order they were inserted, is listed as \<open>[t3, t2, t1]\<close>.
\<close>

theorem home_newest_first:
  "home s = Render (Index_html (order_by_date_posted_desc (posts s))) \<and>
   mset (order_by_date_posted_desc (posts s)) = mset (posts s) \<and>
   sorted_wrt (\<lambda>a b. a \<ge> b) (map date_posted (order_by_date_posted_desc (posts s))) \<and>
   (mset (posts s) = {#p1, p2, p3#} \<and> date_posted p1 < date_posted p2 \<and>
    date_posted p2 < date_posted p3 \<longrightarrow>
      order_by_date_posted_desc (posts s) = [p3, p2, p1])"
proof (intro conjI impI)
  show "home s = Render (Index_html (order_by_date_posted_desc (posts s)))"
    by (simp add: home_def)
  show "mset (order_by_date_posted_desc (posts s)) = mset (posts s)"
    by (simp add: order_by_date_posted_desc_def)
  have "sorted (map date_posted (sort_key date_posted (posts s)))"
    by simp
  then have "sorted_wrt (\<lambda>a b. a \<ge> b) (rev (map date_posted (sort_key date_posted (posts s))))"
    by (simp add: sorted_wrt_rev)
  then show "sorted_wrt (\<lambda>a b. a \<ge> b) (map date_posted (order_by_date_posted_desc (posts s)))"
    by (simp add: order_by_date_posted_desc_def rev_map)
next
  assume "mset (posts s) = {#p1, p2, p3#} \<and> date_posted p1 < date_posted p2 \<and>
    date_posted p2 < date_posted p3"
  then have "sort_key date_posted (posts s) = [p1, p2, p3]"
    by (intro sort_key_three) simp_all
  then show "order_by_date_posted_desc (posts s) = [p3, p2, p1]"
    by (simp add: order_by_date_posted_desc_def)
qed


theorem home_newest_first_witness:
  "home \<lparr>posts = [sample_post 1 200, sample_post 2 300, sample_post 3 100], fs = Map.empty\<rparr> =
     Render (Index_html [sample_post 2 300, sample_post 1 200, sample_post 3 100])"
proof -
  let ?s = "\<lparr>posts = [sample_post 1 200, sample_post 2 300, sample_post 3 100], fs = Map.empty\<rparr>"
  have "mset (posts ?s) = {#sample_post 3 100, sample_post 1 200, sample_post 2 300#} \<and>
      date_posted (sample_post 3 100) < date_posted (sample_post 1 200) \<and>
      date_posted (sample_post 1 200) < date_posted (sample_post 2 300)"
    by (simp add: sample_post_def)
  then show ?thesis
    using home_newest_first [of ?s "sample_post 3 100" "sample_post 1 200" "sample_post 2 300"]
    by simp
qed

section \<open>Rejected requests\<close>

text \<open>
  Claim C1, amended. A create request that has no title, or has neither content nor a file
  that passes the upload condition, adds no row and is answered with the form and an error
  message. If no file passes the upload condition, nothing is written and the message is
  the validation message. If one does (then the title is missing), the upload is handled
  before the validation: when the sanitised name keeps a dot and saving succeeds, the file
  is in the media directory by the time the request is rejected with the validation
  message.
\<close>

theorem invalid_request_rejected:
  assumes "request_method r = ''POST''"
    and "\<not> truthy (form r ''title'') \<or> (\<not> truthy (form r ''content'') \<and> \<not> upload_guard r)"
  shows "posts (fst (new_post e s r)) = posts s \<and>
         (\<exists>msg. snd (new_post e s r) = Render (New_post_html (Some msg))) \<and>
         (\<not> upload_guard r \<longrightarrow>
            new_post e s r =
              (s, Render (New_post_html (Some Fill_in_title_and_content_or_file)))) \<and>
         (\<forall>part. files r ''media_file'' = Some part \<and> upload_guard r \<and>
            CHR ''.'' \<in> set (secure_filename e (filename part)) \<and> save_raises e = None \<longrightarrow>
            new_post e s r =
              (s\<lparr>fs := (fs s)(save_path_of e part \<mapsto> stream part)\<rparr>,
               Render (New_post_html (Some Fill_in_title_and_content_or_file))))"
proof (cases "upload_guard r")
  case False
  then have pu: "process_upload e s r = (s, Inr (None, None))"
    by (rule process_upload_skipped)
  have "\<not> (truthy (form r ''title'') \<and> (truthy (form r ''content'') \<or> truthy None))"
    using assms(2) False by (auto simp: truthy_def)
  from new_post_invalid [OF assms(1) pu this] False show ?thesis
    by simp
next
  case True
  with assms(2) have title: "\<not> truthy (form r ''title'')"
    by simp
  from True obtain part where part: "files r ''media_file'' = Some part"
    by (auto simp: upload_guard_def split: option.splits)
  obtain s' res where pu: "process_upload e s r = (s', res)"
    by (cases "process_upload e s r")
  have posts: "posts s' = posts s"
    using process_upload_posts [of e s r] pu by simp
  show ?thesis
  proof (cases res)
    case (Inl ex)
    have "new_post e s r = (s', Render (New_post_html (Some (Publish_failed ex))))"
      using new_post_raised [OF assms(1)] pu Inl by simp
    moreover have "CHR ''.'' \<notin> set (secure_filename e (filename part)) \<or> save_raises e \<noteq> None"
      using process_upload_entered [OF part True, of e s] pu Inl
      by (auto split: if_splits option.splits)
    ultimately show ?thesis
      using posts True part by auto
  next
    case (Inr media)
    obtain mt mf where media: "media = (mt, mf)"
      by (cases media)
    have np: "new_post e s r =
        (s', Render (New_post_html (Some Fill_in_title_and_content_or_file)))"
      using new_post_invalid [OF assms(1), of e s s' mt mf] pu Inr media title by simp
    have "s' = s\<lparr>fs := (fs s)(save_path_of e part \<mapsto> stream part)\<rparr>"
      using process_upload_entered [OF part True, of e s] pu Inr media
      by (auto split: if_splits option.splits)
    with np posts True part show ?thesis
      by auto
  qed
qed

theorem invalid_request_rejected_witness:
  "new_post sample_env empty_state (post_request [(''title'', ''Hello'')] None) =
     (empty_state, Render (New_post_html (Some Fill_in_title_and_content_or_file))) \<and>
   new_post sample_env empty_state
     (post_request [(''content'', ''World'')] (Some \<lparr>filename = ''scope.png'', stream = ''PNG''\<rparr>)) =
     (empty_state\<lparr>fs := (fs empty_state)(''static/uploads/01234567_scope.png'' \<mapsto> ''PNG'')\<rparr>,
      Render (New_post_html (Some Fill_in_title_and_content_or_file)))"
proof -
  let ?r = "post_request [(''title'', ''Hello'')] None"
  let ?part = "\<lparr>filename = ''scope.png'', stream = ''PNG''\<rparr>"
  let ?r' = "post_request [(''content'', ''World'')] (Some ?part)"
  have r: "request_method ?r = ''POST''"
    "\<not> truthy (form ?r ''title'') \<or> (\<not> truthy (form ?r ''content'') \<and> \<not> upload_guard ?r)"
    by (simp_all add: post_request_def truthy_def upload_guard_def)
  have r': "request_method ?r' = ''POST''"
    "\<not> truthy (form ?r' ''title'') \<or> (\<not> truthy (form ?r' ''content'') \<and> \<not> upload_guard ?r')"
    by (simp_all add: post_request_def truthy_def)
  have guard: "files ?r' ''media_file'' = Some ?part \<and> upload_guard ?r' \<and>
      CHR ''.'' \<in> set (secure_filename sample_env (filename ?part)) \<and>
      save_raises sample_env = None"
    by (simp add: sample_defs upload_guard_def allowed_file_def rsplit1_def index_def
        lower_defs ALLOWED_EXTENSIONS_def sanitiser_defs)
  have path: "save_path_of sample_env ?part = ''static/uploads/01234567_scope.png''"
    by (simp add: save_path_of_def unique_name_of_def sample_env_def UPLOAD_FOLDER_def
        os_path_join_def sanitiser_defs)
  have "new_post sample_env empty_state ?r =
      (empty_state, Render (New_post_html (Some Fill_in_title_and_content_or_file)))"
    using invalid_request_rejected [OF r, of sample_env empty_state]
    by (simp add: post_request_def upload_guard_def)
  moreover have "new_post sample_env empty_state ?r' =
     (empty_state\<lparr>fs := (fs empty_state)(''static/uploads/01234567_scope.png'' \<mapsto> ''PNG'')\<rparr>,
      Render (New_post_html (Some Fill_in_title_and_content_or_file)))"
    using invalid_request_rejected [OF r', of sample_env empty_state] guard path
    by simp
  ultimately show ?thesis
    by simp
qed

text \<open>A request without a title that carries an allowed file is rejected, yet its file has
  been written by then.\<close>

theorem rejected_after_write_counterexample:
  "\<not> truthy (form (post_request [(''content'', ''World'')]
        (Some \<lparr>filename = ''scope.png'', stream = ''PNG''\<rparr>)) ''title'') \<and>
   snd (new_post sample_env empty_state
     (post_request [(''content'', ''World'')] (Some \<lparr>filename = ''scope.png'', stream = ''PNG''\<rparr>))) =
     Render (New_post_html (Some Fill_in_title_and_content_or_file)) \<and>
   fs empty_state ''static/uploads/01234567_scope.png'' = None \<and>
   fs (fst (new_post sample_env empty_state
     (post_request [(''content'', ''World'')] (Some \<lparr>filename = ''scope.png'', stream = ''PNG''\<rparr>))))
     ''static/uploads/01234567_scope.png'' = Some ''PNG''"
  by (simp add: sample_defs handler_defs lower_defs sanitiser_defs)

section \<open>Stored file names\<close>

lemma set_strip: "set (strip s chars) \<subseteq> set s"
proof -
  have "set (dropWhile P (rev (dropWhile P s))) \<subseteq> set s" for P :: "char \<Rightarrow> bool"
    using set_dropWhileD [of _ P "rev (dropWhile P s)"] set_dropWhileD [of _ P s] by auto
  then show ?thesis
    by (simp add: strip_def)
qed

lemma werkzeug_secure_filename_chars:
  "set (werkzeug_secure_filename to_ascii name) \<subseteq> set filename_ascii_chars"
proof -
  have "set (filter (\<lambda>c. c \<in> set filename_ascii_chars) xs) \<subseteq> set filename_ascii_chars" for xs
    by auto
  then show ?thesis
    unfolding werkzeug_secure_filename_def Let_def
    using set_strip by (meson subset_trans)
qed

lemma werkzeug_secure_filename_no_slash:
  "CHR ''/'' \<notin> set (werkzeug_secure_filename to_ascii name)"
proof -
  have "CHR ''/'' \<notin> set filename_ascii_chars"
    by (simp add: filename_ascii_chars_def ascii_uppercase_def ascii_lowercase_def digits_def)
  then show ?thesis
    using werkzeug_secure_filename_chars [of to_ascii name] by auto
qed

lemma werkzeug_secure_filename_passwd:
  assumes "to_ascii ''../../etc/passwd.png'' = ''../../etc/passwd.png''"
  shows "werkzeug_secure_filename to_ascii ''../../etc/passwd.png'' = ''etc_passwd.png''"
  using assms by (simp add: sanitiser_defs)

lemma os_path_join_upload_folder:
  assumes "name \<noteq> []" and "hd name \<noteq> CHR ''/''"
  shows "os_path_join UPLOAD_FOLDER name = ''static/uploads/'' @ name"
  using assms by (simp add: os_path_join_def UPLOAD_FOLDER_def)

text \<open>
  Claim C4, amended. With the framework's sanitiser, whatever its first step does to
  characters outside ASCII, and a hexadecimal UUID, an accepted upload is stored under the
  first eight characters of the UUID, an underscore, and the sanitised name of the file,
  in this order. The stored name contains no \<open>/\<close> and is neither \<open>.\<close> nor \<open>..\<close>, it is typed
  \<open>image\<close> or \<open>video\<close>, the file is written to \<open>static/uploads/\<close> followed by that name, and
  no other path of the file system changes. The upload named \<open>../../etc/passwd.png\<close> is
  an image stored under the token followed by \<open>_etc_passwd.png\<close>.
\<close>

theorem accepted_upload_stored:
  assumes "process_upload e s r = (s', Inr (Some t, Some name))"
    and "secure_filename e = werkzeug_secure_filename to_ascii"
    and "8 \<le> length (uuid4_hex e)"
    and "set (uuid4_hex e) \<subseteq> set ''0123456789abcdef''"
  shows "\<exists>part. files r ''media_file'' = Some part \<and>
           name = take 8 (uuid4_hex e) @ ''_'' @
             werkzeug_secure_filename to_ascii (filename part) \<and>
           length (take 8 (uuid4_hex e)) = 8 \<and>
           CHR ''/'' \<notin> set name \<and> name \<noteq> ''.'' \<and> name \<noteq> ''..'' \<and>
           get_file_type name = Inr t \<and> (t = ''image'' \<or> t = ''video'') \<and>
           s' = s\<lparr>fs := (fs s)(''static/uploads/'' @ name \<mapsto> stream part)\<rparr> \<and>
           (filename part = ''../../etc/passwd.png'' \<and>
            to_ascii ''../../etc/passwd.png'' = ''../../etc/passwd.png'' \<longrightarrow>
              name = take 8 (uuid4_hex e) @ ''_etc_passwd.png'' \<and> t = ''image'')"
proof -
  from process_upload_media [OF assms(1)] obtain part where
    part: "files r ''media_file'' = Some part"
    and name: "name = unique_name_of e part"
    and kind: "t = ''image'' \<or> t = ''video''"
    and type: "get_file_type (unique_name_of e part) = Inr t"
    and s': "s' = s\<lparr>fs := (fs s)(save_path_of e part \<mapsto> stream part)\<rparr>"
    by auto
  have name': "name = take 8 (uuid4_hex e) @ ''_'' @
      werkzeug_secure_filename to_ascii (filename part)"
    using name assms(2) by (simp add: unique_name_of_def)
  have hex: "CHR ''/'' \<notin> set (take 8 (uuid4_hex e))"
    using assms(4) set_take_subset [of 8 "uuid4_hex e"] by auto
  then have slash: "CHR ''/'' \<notin> set name"
    using name' werkzeug_secure_filename_no_slash [of to_ascii "filename part"] by simp
  have len: "length (take 8 (uuid4_hex e)) = 8"
    using assms(3) by simp
  then have long: "9 \<le> length name"
    using name' by simp
  then have "name \<noteq> []"
    by auto
  moreover from this slash have "hd name \<noteq> CHR ''/''"
    by (cases name) auto
  ultimately have path: "save_path_of e part = ''static/uploads/'' @ name"
    using name by (simp add: save_path_of_def os_path_join_upload_folder)
  have dots: "name \<noteq> ''.''" "name \<noteq> ''..''"
    using long by auto
  have passwd: "name = take 8 (uuid4_hex e) @ ''_etc_passwd.png'' \<and> t = ''image''"
    if "filename part = ''../../etc/passwd.png'' \<and>
      to_ascii ''../../etc/passwd.png'' = ''../../etc/passwd.png''"
  proof -
    have stored: "name = take 8 (uuid4_hex e) @ ''_etc_passwd.png''"
      using that name' werkzeug_secure_filename_passwd [of to_ascii] by simp
    have "get_file_type ((take 8 (uuid4_hex e) @ ''_etc_passwd'') @ ''.'' @ ''png'') =
        Inr ''image''"
      by (subst get_file_type_dotted) (simp_all add: lower_defs)
    then have "get_file_type name = Inr ''image''"
      using stored by simp
    with type name stored show ?thesis
      by simp
  qed
  show ?thesis
    using s' part name' len slash dots type name path kind passwd
    by (intro exI [of _ part]) simp
qed

theorem accepted_upload_stored_witness:
  "process_upload sample_env empty_state
     (post_request [(''title'', ''Hello'')]
        (Some \<lparr>filename = ''../../etc/passwd.png'', stream = ''root''\<rparr>)) =
     (empty_state\<lparr>fs := (fs empty_state)
          (''static/uploads/01234567_etc_passwd.png'' \<mapsto> ''root'')\<rparr>,
      Inr (Some ''image'', Some ''01234567_etc_passwd.png'')) \<and>
   CHR ''/'' \<notin> set ''01234567_etc_passwd.png'' \<and>
   get_file_type ''01234567_etc_passwd.png'' = Inr ''image''"
proof -
  let ?part = "\<lparr>filename = ''../../etc/passwd.png'', stream = ''root''\<rparr>"
  let ?r = "post_request [(''title'', ''Hello'')] (Some ?part)"
  let ?s' = "empty_state\<lparr>fs := (fs empty_state)
      (''static/uploads/01234567_etc_passwd.png'' \<mapsto> ''root'')\<rparr>"
  have pu: "process_upload sample_env empty_state ?r =
      (?s', Inr (Some ''image'', Some ''01234567_etc_passwd.png''))"
    by (simp add: sample_defs handler_defs lower_defs sanitiser_defs)
  have env: "secure_filename sample_env = werkzeug_secure_filename (\<lambda>name. name)"
    "8 \<le> length (uuid4_hex sample_env)"
    "set (uuid4_hex sample_env) \<subseteq> set ''0123456789abcdef''"
    by (simp_all add: sample_env_def)
  from accepted_upload_stored [OF pu env] pu show ?thesis
    by auto
qed

text \<open>The upload named \<open>../../etc/passwd.png\<close> is stored under the token, an underscore and
  \<open>etc_passwd.png\<close>: the sanitiser turns the separators into underscores and keeps the
  directory names, and the handler puts an underscore after the token.\<close>

theorem passwd_stored_name_counterexample:
  "map media_filename (posts (fst (new_post sample_env empty_state
      (post_request [(''title'', ''Hello'')]
         (Some \<lparr>filename = ''../../etc/passwd.png'', stream = ''root''\<rparr>))))) =
     [Some ''01234567_etc_passwd.png''] \<and>
   ''01234567_etc_passwd.png'' \<noteq> take 8 (uuid4_hex sample_env) @ ''passwd.png'' \<and>
   ''01234567_etc_passwd.png'' \<noteq>
     take 8 (uuid4_hex sample_env) @
       werkzeug_secure_filename (\<lambda>name. name) ''../../etc/passwd.png''"
  by (simp add: sample_defs handler_defs lower_defs sanitiser_defs)

end
